theory Spec2Isabelle
  imports Main "HOL-Library.Word"
begin

section \<open>JavaScript strings\<close>

text \<open>
  A JavaScript string is a sequence of 16-bit UTF-16 code units. String literals of the
  source are all ASCII; \<open>js\<close> turns an Isabelle literal into the code units it denotes.
\<close>

type_synonym code_unit = "16 word"
type_synonym jsstring = "code_unit list"

definition js :: "string \<Rightarrow> jsstring" where
  "js s = map of_char s"

text \<open>
  The code units that \<^verbatim>\<open>String.prototype.trim\<close> strips and that the regular expression
  class \<^verbatim>\<open>\s\<close> accepts (the source's pattern has no \<^verbatim>\<open>u\<close> flag, so it works on code
  units): ECMAScript's WhiteSpace and LineTerminator productions.
\<close>

definition WhiteSpace :: "code_unit list" where
  "WhiteSpace =
     [0x0009, 0x000B, 0x000C, 0xFEFF, 0x0020, 0x00A0, 0x1680,
      0x2000, 0x2001, 0x2002, 0x2003, 0x2004, 0x2005, 0x2006, 0x2007, 0x2008, 0x2009, 0x200A,
      0x202F, 0x205F, 0x3000]"

definition LineTerminator :: "code_unit list" where
  "LineTerminator = [0x000A, 0x000D, 0x2028, 0x2029]"

definition is_ws :: "code_unit \<Rightarrow> bool" where
  "is_ws c = (c \<in> set (WhiteSpace @ LineTerminator))"

definition trimStart :: "jsstring \<Rightarrow> jsstring" where
  "trimStart s = dropWhile is_ws s"

definition trimEnd :: "jsstring \<Rightarrow> jsstring" where
  "trimEnd s = rev (dropWhile is_ws (rev s))"

definition trim :: "jsstring \<Rightarrow> jsstring" where
  "trim s = trimEnd (trimStart s)"

text \<open>\<^verbatim>\<open>!s\<close> on a string: the empty string is the only falsy string.\<close>

definition not_str :: "jsstring \<Rightarrow> bool" where
  "not_str s = (s = [])"

section \<open>The regular expression of the email rule\<close>

text \<open>
  The source tests \<^verbatim>\<open>/\S+@\S+\.\S+/\<close>. In ECMAScript's grammar this pattern is one
  Alternative: a sequence of Terms, each an Atom matching a single code unit, with or
  without the quantifier \<^verbatim>\<open>+\<close>. The matcher below is the backtracking matcher for that
  fragment: a term yields the remainders of the input after each way it can match, the
  greedy (longest) one first, and the next term is tried on each in turn.
\<close>

datatype atom = PatternCharacter code_unit | NonWhiteSpace

datatype rterm = Once atom | OneOrMore atom

type_synonym pattern = "rterm list"

fun atom_accepts :: "atom \<Rightarrow> code_unit \<Rightarrow> bool" where
  "atom_accepts (PatternCharacter a) c = (c = a)"
| "atom_accepts NonWhiteSpace c = (\<not> is_ws c)"

fun term_ends :: "rterm \<Rightarrow> jsstring \<Rightarrow> jsstring list" where
  "term_ends t [] = []"
| "term_ends (Once a) (c # cs) = (if atom_accepts a c then [cs] else [])"
| "term_ends (OneOrMore a) (c # cs) =
     (if atom_accepts a c then term_ends (OneOrMore a) cs @ [cs] else [])"

fun matches_at :: "pattern \<Rightarrow> jsstring \<Rightarrow> bool" where
  "matches_at [] s = True"
| "matches_at (t # ts) s = list_ex (matches_at ts) (term_ends t s)"

text \<open>
  \<^verbatim>\<open>RegExp.prototype.test\<close> without the \<^verbatim>\<open>g\<close> or \<^verbatim>\<open>y\<close> flag: the match is attempted
  at every start index from 0 up to the length of the string, and the call keeps no state.
\<close>

fun regex_test :: "pattern \<Rightarrow> jsstring \<Rightarrow> bool" where
  "regex_test p [] = matches_at p []"
| "regex_test p (c # cs) = (matches_at p (c # cs) \<or> regex_test p cs)"

definition email_pattern :: pattern where
  "email_pattern =
     [OneOrMore NonWhiteSpace, Once (PatternCharacter 0x40), OneOrMore NonWhiteSpace,
      Once (PatternCharacter 0x2E), OneOrMore NonWhiteSpace]"

section \<open>The contact form\<close>

text \<open>
  \<^verbatim>\<open>ContactFormData\<close> has four string fields; the error state is
  \<^verbatim>\<open>Partial<ContactFormData>\<close>, the same four fields, each optional.
\<close>

record 'a ContactFormFields =
  name :: 'a
  email :: 'a
  subject :: 'a
  message :: 'a

type_synonym ContactFormData = "jsstring ContactFormFields"
type_synonym PartialContactFormData = "jsstring option ContactFormFields"

text \<open>
  The \<^verbatim>\<open>name\<close> attribute of the control that fired a change event. The handler is
  attached to the four controls of the form only.
\<close>

datatype field = Name | Email | Subject | Message

fun get_field :: "field \<Rightarrow> 'a ContactFormFields \<Rightarrow> 'a" where
  "get_field Name d = name d"
| "get_field Email d = email d"
| "get_field Subject d = subject d"
| "get_field Message d = message d"

fun set_field :: "field \<Rightarrow> 'a \<Rightarrow> 'a ContactFormFields \<Rightarrow> 'a ContactFormFields" where
  "set_field Name v d = d\<lparr>name := v\<rparr>"
| "set_field Email v d = d\<lparr>email := v\<rparr>"
| "set_field Subject v d = d\<lparr>subject := v\<rparr>"
| "set_field Message v d = d\<lparr>message := v\<rparr>"

definition delete_field :: "field \<Rightarrow> PartialContactFormData \<Rightarrow> PartialContactFormData" where
  "delete_field f e = set_field f None e"

text \<open>Truthiness of \<^verbatim>\<open>errors[name]\<close>: undefined and the empty string are falsy.\<close>

definition truthy :: "jsstring option \<Rightarrow> bool" where
  "truthy v = (case v of None \<Rightarrow> False | Some m \<Rightarrow> \<not> not_str m)"

definition empty_form :: ContactFormData where
  "empty_form = \<lparr>name = [], email = [], subject = [], message = []\<rparr>"

definition no_errors :: PartialContactFormData where
  "no_errors = \<lparr>name = None, email = None, subject = None, message = None\<rparr>"

text \<open>
  The component's two state cells, and the two sinks its handlers write to: the toasts
  shown by \<^verbatim>\<open>toast.success\<close> and the lines of \<^verbatim>\<open>console.log\<close>.
\<close>

record contact =
  formData :: ContactFormData
  errors :: PartialContactFormData
  toasts :: "jsstring list"
  console :: "(jsstring \<times> ContactFormData) list"

definition initial :: contact where
  "initial = \<lparr>formData = empty_form, errors = no_errors, toasts = [], console = []\<rparr>"

definition handleChange :: "field \<Rightarrow> jsstring \<Rightarrow> contact \<Rightarrow> contact" where
  "handleChange f v st =
     (let st1 = st\<lparr>formData := set_field f v (formData st)\<rparr>
      in if truthy (get_field f (errors st))
         then st1\<lparr>errors := delete_field f (errors st1)\<rparr>
         else st1)"

text \<open>The object \<^verbatim>\<open>newErrors\<close> that \<^verbatim>\<open>validateForm\<close> builds from the form data.\<close>

definition newErrors :: "ContactFormData \<Rightarrow> PartialContactFormData" where
  "newErrors d =
     (let e0 = no_errors;
          e1 = (if not_str (trim (name d)) then e0\<lparr>name := Some (js ''Name is required'')\<rparr>
                else e0);
          e2 = (if not_str (trim (email d)) then e1\<lparr>email := Some (js ''Email is required'')\<rparr>
                else if \<not> regex_test email_pattern (email d)
                then e1\<lparr>email := Some (js ''Email is not valid'')\<rparr>
                else e1);
          e3 = (if not_str (trim (subject d))
                then e2\<lparr>subject := Some (js ''Subject is required'')\<rparr>
                else e2);
          e4 = (if not_str (trim (message d))
                then e3\<lparr>message := Some (js ''Message is required'')\<rparr>
                else e3)
      in e4)"

definition Object_keys :: "PartialContactFormData \<Rightarrow> field list" where
  "Object_keys e = filter (\<lambda>f. get_field f e \<noteq> None) [Name, Email, Subject, Message]"

text \<open>
  \<^verbatim>\<open>validateForm\<close> reads the form data, stores \<^verbatim>\<open>newErrors\<close> with \<^verbatim>\<open>setErrors\<close>
  and returns whether it has no key.
\<close>

definition validateForm :: "contact \<Rightarrow> bool \<times> contact" where
  "validateForm st =
     (let ne = newErrors (formData st)
      in (length (Object_keys ne) = 0, st\<lparr>errors := ne\<rparr>))"

definition success_message :: jsstring where
  "success_message = js ''Thank you for your message! We will get back to you soon.''"

text \<open>
  \<^verbatim>\<open>handleSubmit\<close>. Its first statement, \<^verbatim>\<open>e.preventDefault()\<close>, acts on the browser's
  event object and on nothing the component owns.
\<close>

definition handleSubmit :: "contact \<Rightarrow> contact" where
  "handleSubmit st =
     (case validateForm st of
        (ok, st1) \<Rightarrow>
          if ok
          then st1\<lparr>console := console st1 @ [(js ''Form submitted:'', formData st)],
                   toasts := toasts st1 @ [success_message],
                   formData := empty_form\<rparr>
          else st1)"

text \<open>The events the form receives, and the states a sequence of them can lead to.\<close>

datatype event = Change field jsstring | Submit

fun step :: "contact \<Rightarrow> event \<Rightarrow> contact" where
  "step st (Change f v) = handleChange f v st"
| "step st Submit = handleSubmit st"

inductive reachable :: "contact \<Rightarrow> bool" where
  reachable_initial: "reachable initial"
| reachable_step: "reachable st \<Longrightarrow> reachable (step st ev)"

section \<open>The specification's vocabulary\<close>

text \<open>
  The predicates \<open>blank\<close>, \<open>email_shape\<close>, \<open>contains_email_shape\<close> and the
  function \<open>spec_rule\<close> are not taken from the source: they say, in the words of the
  specification, what the source's functions above are compared with. The subject options
  are the \<^verbatim>\<open>value\<close> attributes of the source's \<^verbatim>\<open>option\<close> elements.
\<close>

text \<open>A blank value: empty, or made of whitespace only.\<close>

definition blank :: "jsstring \<Rightarrow> bool" where
  "blank s = (\<forall>c\<in>set s. is_ws c)"

text \<open>A run of at least one non-whitespace character.\<close>

definition nonspace_run :: "jsstring \<Rightarrow> bool" where
  "nonspace_run w = (w \<noteq> [] \<and> (\<forall>c\<in>set w. \<not> is_ws c))"

text \<open>
  The email shape: at least one non-whitespace character, \<^verbatim>\<open>@\<close>, at least one
  non-whitespace character, \<^verbatim>\<open>.\<close>, at least one non-whitespace character.
  \<open>email_shape\<close> says that the value as a whole has this shape,
  \<open>contains_email_shape\<close> that some contiguous part of the value has it.
\<close>

definition email_shape :: "jsstring \<Rightarrow> bool" where
  "email_shape s =
     (\<exists>a b c. s = a @ js ''@'' @ b @ js ''.'' @ c \<and>
        nonspace_run a \<and> nonspace_run b \<and> nonspace_run c)"

definition contains_email_shape :: "jsstring \<Rightarrow> bool" where
  "contains_email_shape s = (\<exists>pre w post. s = pre @ w @ post \<and> email_shape w)"

text \<open>
  The validation rule of each field: the message the field fails with, or \<open>None\<close> when
  the field passes.
\<close>

fun spec_rule :: "field \<Rightarrow> jsstring \<Rightarrow> jsstring option" where
  "spec_rule Name v = (if blank v then Some (js ''Name is required'') else None)"
| "spec_rule Email v =
     (if blank v then Some (js ''Email is required'')
      else if \<not> contains_email_shape v then Some (js ''Email is not valid'')
      else None)"
| "spec_rule Subject v = (if blank v then Some (js ''Subject is required'') else None)"
| "spec_rule Message v = (if blank v then Some (js ''Message is required'') else None)"

text \<open>The values of the options of the subject control.\<close>

definition subject_options :: "jsstring list" where
  "subject_options = map js ['''', ''tour'', ''exhibition'', ''custom'', ''general'', ''other'']"

text \<open>
  Running a sequence of events, and the number of submissions in it that pass validation
  in the state they are made in.
\<close>

fun run :: "contact \<Rightarrow> event list \<Rightarrow> contact" where
  "run st [] = st"
| "run st (ev # evs) = run (step st ev) evs"

fun successful_submits :: "contact \<Rightarrow> event list \<Rightarrow> nat" where
  "successful_submits st [] = 0"
| "successful_submits st (ev # evs) =
     (if ev = Submit \<and> fst (validateForm st) then 1 else 0) + successful_submits (step st ev) evs"

text \<open>Every stored error is the message its field fails with now.\<close>

definition errors_current :: "contact \<Rightarrow> bool" where
  "errors_current st =
     (\<forall>f m. get_field f (errors st) = Some m \<longrightarrow> spec_rule f (get_field f (formData st)) = Some m)"

section \<open>Trimming and the matcher\<close>

lemma trim_empty_iff: "not_str (trim s) \<longleftrightarrow> blank s"
proof
  assume "not_str (trim s)"
  then have all: "\<forall>c\<in>set (dropWhile is_ws s). is_ws c"
    by (simp add: not_str_def trim_def trimEnd_def trimStart_def)
  have "dropWhile is_ws s = []"
  proof (rule ccontr)
    assume ne: "dropWhile is_ws s \<noteq> []"
    then have "\<not> is_ws (hd (dropWhile is_ws s))" by (rule hd_dropWhile)
    moreover from ne have "hd (dropWhile is_ws s) \<in> set (dropWhile is_ws s)" by simp
    ultimately show False using all by blast
  qed
  then show "blank s" by (simp add: blank_def)
next
  assume "blank s"
  then have "dropWhile is_ws s = []" by (simp add: blank_def)
  then show "not_str (trim s)"
    unfolding not_str_def trim_def trimEnd_def trimStart_def by (simp only: rev.simps dropWhile.simps)
qed

lemma term_ends_Once:
  "t \<in> set (term_ends (Once a) s) \<longleftrightarrow> (\<exists>c. s = c # t \<and> atom_accepts a c)"
  by (cases s) auto

lemma term_ends_OneOrMore:
  "t \<in> set (term_ends (OneOrMore a) s) \<longleftrightarrow>
     (\<exists>p. s = p @ t \<and> p \<noteq> [] \<and> (\<forall>c\<in>set p. atom_accepts a c))"
proof (induction s)
  case Nil
  then show ?case by simp
next
  case (Cons x xs)
  show ?case
  proof (cases "atom_accepts a x")
    case False
    then show ?thesis by (auto simp: Cons_eq_append_conv)
  next
    case True
    show ?thesis
    proof
      assume "t \<in> set (term_ends (OneOrMore a) (x # xs))"
      with True have "t \<in> set (term_ends (OneOrMore a) xs) \<or> t = xs" by auto
      then show "\<exists>p. x # xs = p @ t \<and> p \<noteq> [] \<and> (\<forall>c\<in>set p. atom_accepts a c)"
      proof
        assume "t \<in> set (term_ends (OneOrMore a) xs)"
        with Cons.IH obtain p where "xs = p @ t" "\<forall>c\<in>set p. atom_accepts a c" by blast
        with True have "x # xs = (x # p) @ t \<and> x # p \<noteq> [] \<and> (\<forall>c\<in>set (x # p). atom_accepts a c)"
          by simp
        then show ?thesis by blast
      next
        assume "t = xs"
        with True have "x # xs = [x] @ t \<and> [x] \<noteq> [] \<and> (\<forall>c\<in>set [x]. atom_accepts a c)"
          by simp
        then show ?thesis by blast
      qed
    next
      assume "\<exists>p. x # xs = p @ t \<and> p \<noteq> [] \<and> (\<forall>c\<in>set p. atom_accepts a c)"
      then obtain p where p: "x # xs = p @ t" "p \<noteq> []" "\<forall>c\<in>set p. atom_accepts a c"
        by blast
      then obtain q where q: "p = x # q" "xs = q @ t" by (cases p) auto
      show "t \<in> set (term_ends (OneOrMore a) (x # xs))"
      proof (cases "q = []")
        case True
        with q \<open>atom_accepts a x\<close> show ?thesis by simp
      next
        case False
        with q p have "t \<in> set (term_ends (OneOrMore a) xs)"
          using Cons.IH by auto
        with \<open>atom_accepts a x\<close> show ?thesis by simp
      qed
    qed
  qed
qed

lemma matches_at_Once:
  "matches_at (Once a # ts) s \<longleftrightarrow> (\<exists>c t. s = c # t \<and> atom_accepts a c \<and> matches_at ts t)"
  by (auto simp: list_ex_iff term_ends_Once)

lemma matches_at_OneOrMore:
  "matches_at (OneOrMore a # ts) s \<longleftrightarrow>
     (\<exists>p t. s = p @ t \<and> p \<noteq> [] \<and> (\<forall>c\<in>set p. atom_accepts a c) \<and> matches_at ts t)"
proof
  assume "matches_at (OneOrMore a # ts) s"
  then obtain t where t: "t \<in> set (term_ends (OneOrMore a) s)" "matches_at ts t"
    by (auto simp: list_ex_iff)
  from t(1) obtain p where "s = p @ t" "p \<noteq> []" "\<forall>c\<in>set p. atom_accepts a c"
    unfolding term_ends_OneOrMore by blast
  with t(2) show "\<exists>p t. s = p @ t \<and> p \<noteq> [] \<and> (\<forall>c\<in>set p. atom_accepts a c) \<and> matches_at ts t"
    by blast
next
  assume "\<exists>p t. s = p @ t \<and> p \<noteq> [] \<and> (\<forall>c\<in>set p. atom_accepts a c) \<and> matches_at ts t"
  then obtain p t where pt: "s = p @ t" "p \<noteq> []" "\<forall>c\<in>set p. atom_accepts a c"
    and m: "matches_at ts t"
    by blast
  from pt have "t \<in> set (term_ends (OneOrMore a) s)"
    unfolding term_ends_OneOrMore by blast
  with m show "matches_at (OneOrMore a # ts) s"
    by (auto simp: list_ex_iff)
qed

lemma matches_at_OneOrMoreE:
  assumes "matches_at (OneOrMore NonWhiteSpace # ts) s"
  obtains p t where "s = p @ t" "nonspace_run p" "matches_at ts t"
proof -
  from assms obtain p t where "s = p @ t" "p \<noteq> []"
      "\<forall>c\<in>set p. atom_accepts NonWhiteSpace c" "matches_at ts t"
    unfolding matches_at_OneOrMore by blast
  then show thesis using that [of p t] by (simp add: nonspace_run_def)
qed

lemma matches_at_OnceE:
  assumes "matches_at (Once (PatternCharacter k) # ts) s"
  obtains t where "s = k # t" "matches_at ts t"
proof -
  from assms obtain c t where "s = c # t" "atom_accepts (PatternCharacter k) c" "matches_at ts t"
    unfolding matches_at_Once by blast
  then show thesis using that [of t] by simp
qed

lemma matches_at_OneOrMoreI:
  assumes "nonspace_run p" "matches_at ts t"
  shows "matches_at (OneOrMore NonWhiteSpace # ts) (p @ t)"
proof -
  from assms have "p @ t = p @ t \<and> p \<noteq> [] \<and> (\<forall>c\<in>set p. atom_accepts NonWhiteSpace c) \<and>
      matches_at ts t"
    by (simp add: nonspace_run_def)
  then show ?thesis unfolding matches_at_OneOrMore by blast
qed

lemma matches_at_OnceI:
  assumes "matches_at ts t"
  shows "matches_at (Once (PatternCharacter k) # ts) (k # t)"
  unfolding matches_at_Once using assms by simp

lemma js_at: "js ''@'' = [0x40]"
  by (simp add: js_def)

lemma js_dot: "js ''.'' = [0x2E]"
  by (simp add: js_def)

lemma matches_at_email_pattern:
  "matches_at email_pattern s \<longleftrightarrow> (\<exists>w post. s = w @ post \<and> email_shape w)"
proof
  assume "matches_at email_pattern s"
  then have m: "matches_at (OneOrMore NonWhiteSpace # Once (PatternCharacter 0x40) #
      OneOrMore NonWhiteSpace # Once (PatternCharacter 0x2E) # [OneOrMore NonWhiteSpace]) s"
    by (simp only: email_pattern_def)
  from m obtain a t1 where 1: "s = a @ t1" "nonspace_run a"
    and m1: "matches_at (Once (PatternCharacter 0x40) #
      OneOrMore NonWhiteSpace # Once (PatternCharacter 0x2E) # [OneOrMore NonWhiteSpace]) t1"
    by (rule matches_at_OneOrMoreE)
  from m1 obtain t2 where 2: "t1 = 0x40 # t2"
    and m2: "matches_at (OneOrMore NonWhiteSpace # Once (PatternCharacter 0x2E) #
      [OneOrMore NonWhiteSpace]) t2"
    by (rule matches_at_OnceE)
  from m2 obtain b t3 where 3: "t2 = b @ t3" "nonspace_run b"
    and m3: "matches_at (Once (PatternCharacter 0x2E) # [OneOrMore NonWhiteSpace]) t3"
    by (rule matches_at_OneOrMoreE)
  from m3 obtain t4 where 4: "t3 = 0x2E # t4"
    and m4: "matches_at [OneOrMore NonWhiteSpace] t4"
    by (rule matches_at_OnceE)
  from m4 obtain c post where 5: "t4 = c @ post" "nonspace_run c"
    by (rule matches_at_OneOrMoreE)
  have "s = (a @ js ''@'' @ b @ js ''.'' @ c) @ post"
    by (simp add: 1 2 3 4 5 js_at js_dot)
  moreover have "email_shape (a @ js ''@'' @ b @ js ''.'' @ c)"
    unfolding email_shape_def using 1(2) 3(2) 5(2) by blast
  ultimately show "\<exists>w post. s = w @ post \<and> email_shape w" by blast
next
  assume "\<exists>w post. s = w @ post \<and> email_shape w"
  then obtain w post where w: "s = w @ post" "email_shape w" by blast
  then obtain a b c where abc: "w = a @ js ''@'' @ b @ js ''.'' @ c"
    and r: "nonspace_run a" "nonspace_run b" "nonspace_run c"
    unfolding email_shape_def by blast
  have s: "s = a @ (0x40 # (b @ (0x2E # (c @ post))))"
    by (simp add: w(1) abc js_at js_dot)
  have "matches_at [] post" by simp
  with r(3) have "matches_at [OneOrMore NonWhiteSpace] (c @ post)"
    by (rule matches_at_OneOrMoreI)
  then have "matches_at (Once (PatternCharacter 0x2E) # [OneOrMore NonWhiteSpace])
      (0x2E # (c @ post))"
    by (rule matches_at_OnceI)
  with r(2) have "matches_at (OneOrMore NonWhiteSpace # Once (PatternCharacter 0x2E) #
      [OneOrMore NonWhiteSpace]) (b @ (0x2E # (c @ post)))"
    by (rule matches_at_OneOrMoreI)
  then have "matches_at (Once (PatternCharacter 0x40) # OneOrMore NonWhiteSpace #
      Once (PatternCharacter 0x2E) # [OneOrMore NonWhiteSpace]) (0x40 # (b @ (0x2E # (c @ post))))"
    by (rule matches_at_OnceI)
  with r(1) have "matches_at (OneOrMore NonWhiteSpace # Once (PatternCharacter 0x40) #
      OneOrMore NonWhiteSpace # Once (PatternCharacter 0x2E) # [OneOrMore NonWhiteSpace])
      (a @ (0x40 # (b @ (0x2E # (c @ post)))))"
    by (rule matches_at_OneOrMoreI)
  then show "matches_at email_pattern s"
    by (simp only: email_pattern_def s)
qed

lemma regex_test_iff:
  "regex_test p s \<longleftrightarrow> (\<exists>pre t. s = pre @ t \<and> matches_at p t)"
proof (induction s)
  case Nil
  then show ?case by simp
next
  case (Cons x xs)
  show ?case
  proof
    assume "regex_test p (x # xs)"
    then have "matches_at p (x # xs) \<or> regex_test p xs" by simp
    then show "\<exists>pre t. x # xs = pre @ t \<and> matches_at p t"
    proof
      assume "matches_at p (x # xs)"
      then have "x # xs = [] @ (x # xs) \<and> matches_at p (x # xs)" by simp
      then show ?thesis by blast
    next
      assume "regex_test p xs"
      with Cons.IH obtain pre t where "xs = pre @ t" "matches_at p t" by blast
      then have "x # xs = (x # pre) @ t \<and> matches_at p t" by simp
      then show ?thesis by blast
    qed
  next
    assume "\<exists>pre t. x # xs = pre @ t \<and> matches_at p t"
    then obtain pre t where pt: "x # xs = pre @ t" "matches_at p t" by blast
    show "regex_test p (x # xs)"
    proof (cases pre)
      case Nil
      with pt have "matches_at p (x # xs)" by simp
      then show ?thesis by simp
    next
      case (Cons y ys)
      with pt have "xs = ys @ t" by simp
      with pt Cons.IH have "regex_test p xs" by blast
      then show ?thesis by simp
    qed
  qed
qed

lemma regex_test_email:
  "regex_test email_pattern s \<longleftrightarrow> contains_email_shape s"
  by (auto simp: regex_test_iff matches_at_email_pattern contains_email_shape_def)

section \<open>The validation pass\<close>

lemma newErrors_field:
  "get_field f (newErrors d) = spec_rule f (get_field f d)"
  by (cases f) (simp_all add: newErrors_def Let_def no_errors_def trim_empty_iff regex_test_email)

lemma Object_keys_empty:
  "(Object_keys e = []) = (\<forall>f. get_field f e = None)"
proof
  assume "Object_keys e = []"
  then have k: "get_field Name e = None" "get_field Email e = None"
    "get_field Subject e = None" "get_field Message e = None"
    unfolding Object_keys_def filter_empty_conv by simp_all
  show "\<forall>f. get_field f e = None"
  proof
    fix f
    from k show "get_field f e = None" by (cases f) simp_all
  qed
next
  assume "\<forall>f. get_field f e = None"
  then show "Object_keys e = []"
    by (simp add: Object_keys_def)
qed

lemma all_None_no_errors:
  fixes e :: PartialContactFormData
  assumes "\<forall>f. get_field f e = None"
  shows "e = no_errors"
proof -
  from assms have "get_field Name e = None" "get_field Email e = None"
    "get_field Subject e = None" "get_field Message e = None" by blast+
  then show ?thesis by (cases e) (simp add: no_errors_def)
qed

lemma spec_rule_message_nonempty:
  "spec_rule f v = Some m \<Longrightarrow> m \<noteq> []"
  by (cases f) (auto simp: js_def split: if_splits)

lemma fst_validateForm:
  "fst (validateForm st) = (\<forall>f. spec_rule f (get_field f (formData st)) = None)"
  by (simp add: validateForm_def Let_def Object_keys_empty newErrors_field)

lemma snd_validateForm:
  "snd (validateForm st) = st\<lparr>errors := newErrors (formData st)\<rparr>"
  by (simp add: validateForm_def Let_def)

section \<open>The handlers\<close>

lemma get_no_errors: "get_field f no_errors = None"
  by (cases f) (simp_all add: no_errors_def)

lemma get_set_same: "get_field f (set_field f v d) = v"
  by (cases f) simp_all

lemma get_set_other: "g \<noteq> f \<Longrightarrow> get_field g (set_field f v d) = get_field g d"
  by (cases f; cases g) simp_all

lemma email_shape_contains: "email_shape s \<Longrightarrow> contains_email_shape s"
proof -
  assume "email_shape s"
  then have "s = [] @ s @ [] \<and> email_shape s" by simp
  then show ?thesis unfolding contains_email_shape_def by blast
qed

lemma not_ws_at: "\<not> is_ws 0x40"
  by (simp add: is_ws_def WhiteSpace_def LineTerminator_def)

lemma not_ws_dot: "\<not> is_ws 0x2E"
  by (simp add: is_ws_def WhiteSpace_def LineTerminator_def)

lemma email_shape_no_ws:
  assumes "email_shape s"
  shows "\<forall>c\<in>set s. \<not> is_ws c"
proof -
  from assms obtain a b c where "s = a @ js ''@'' @ b @ js ''.'' @ c"
    "nonspace_run a" "nonspace_run b" "nonspace_run c"
    unfolding email_shape_def by blast
  then show ?thesis
    by (auto simp: nonspace_run_def js_at js_dot not_ws_at not_ws_dot)
qed

lemma contains_email_shape_not_blank:
  assumes "contains_email_shape s"
  shows "\<not> blank s"
proof -
  from assms obtain pre w post where s: "s = pre @ w @ post" and w: "email_shape w"
    unfolding contains_email_shape_def by blast
  from w obtain a b c where "w = a @ js ''@'' @ b @ js ''.'' @ c" "nonspace_run a"
    unfolding email_shape_def by blast
  then obtain x where "x \<in> set w" "\<not> is_ws x"
    unfolding nonspace_run_def by (cases a) auto
  with s show ?thesis by (auto simp: blank_def)
qed

lemma handleSubmit_ok:
  assumes "fst (validateForm st)"
  shows "handleSubmit st =
     st\<lparr>formData := empty_form, errors := no_errors,
        toasts := toasts st @ [success_message],
        console := console st @ [(js ''Form submitted:'', formData st)]\<rparr>"
proof -
  from assms have "\<forall>f. get_field f (newErrors (formData st)) = None"
    by (simp add: fst_validateForm newErrors_field)
  then have ne: "newErrors (formData st) = no_errors" by (rule all_None_no_errors)
  have ok: "Object_keys no_errors = []"
    by (simp add: Object_keys_def no_errors_def)
  show ?thesis
    by (simp add: handleSubmit_def validateForm_def Let_def ne ok)
qed

lemma handleSubmit_not_ok:
  assumes "\<not> fst (validateForm st)"
  shows "handleSubmit st = st\<lparr>errors := newErrors (formData st)\<rparr>"
proof -
  from assms have "Object_keys (newErrors (formData st)) \<noteq> []"
    by (simp add: validateForm_def Let_def)
  then show ?thesis
    by (simp add: handleSubmit_def validateForm_def Let_def)
qed

lemma toasts_handleChange: "toasts (handleChange f v st) = toasts st"
  by (simp add: handleChange_def Let_def)

lemma toasts_step:
  "toasts (step st ev) =
     toasts st @ replicate (if ev = Submit \<and> fst (validateForm st) then 1 else 0) success_message"
proof (cases ev)
  case (Change f v)
  then show ?thesis by (simp add: toasts_handleChange)
next
  case Submit
  then show ?thesis
    by (cases "fst (validateForm st)") (simp_all add: handleSubmit_ok handleSubmit_not_ok)
qed

lemma toasts_run:
  "toasts (run st evs) = toasts st @ replicate (successful_submits st evs) success_message"
proof (induction evs arbitrary: st)
  case Nil
  then show ?case by simp
next
  case (Cons ev evs)
  have "toasts (run st (ev # evs)) = toasts (run (step st ev) evs)" by simp
  also have "\<dots> = toasts (step st ev) @
      replicate (successful_submits (step st ev) evs) success_message"
    by (rule Cons.IH)
  also have "\<dots> = toasts st @ replicate (successful_submits st (ev # evs)) success_message"
    by (simp only: toasts_step append_assoc replicate_add [symmetric] successful_submits.simps)
  finally show ?case .
qed

lemma errors_current_initial: "errors_current initial"
  by (simp add: errors_current_def initial_def get_no_errors)

lemma errors_current_handleSubmit:
  "errors_current (handleSubmit st)"
proof (cases "fst (validateForm st)")
  case True
  show ?thesis
    by (simp add: handleSubmit_ok [OF True] errors_current_def get_no_errors)
next
  case False
  then show ?thesis
    by (simp add: handleSubmit_not_ok errors_current_def newErrors_field)
qed

lemma errors_current_truthy:
  assumes "errors_current st" "get_field f (errors st) = Some m"
  shows "truthy (get_field f (errors st))"
proof -
  from assms have "spec_rule f (get_field f (formData st)) = Some m"
    unfolding errors_current_def by blast
  then have "m \<noteq> []" by (rule spec_rule_message_nonempty)
  with assms(2) show ?thesis by (simp add: truthy_def not_str_def)
qed

lemma errors_handleChange:
  assumes "errors_current st"
  shows "errors (handleChange f v st) = delete_field f (errors st)"
proof (cases "get_field f (errors st)")
  case None
  then have "delete_field f (errors st) = errors st"
    unfolding delete_field_def by (cases f) simp_all
  with None show ?thesis
    by (simp add: handleChange_def Let_def truthy_def)
next
  case (Some m)
  with assms have "truthy (get_field f (errors st))" by (rule errors_current_truthy)
  then show ?thesis by (simp add: handleChange_def Let_def)
qed

lemma formData_handleChange:
  "formData (handleChange f v st) = set_field f v (formData st)"
  by (simp add: handleChange_def Let_def)

lemma errors_current_handleChange:
  assumes "errors_current st"
  shows "errors_current (handleChange f v st)"
  unfolding errors_current_def
proof (intro allI impI)
  fix g m
  assume g: "get_field g (errors (handleChange f v st)) = Some m"
  then have d: "get_field g (delete_field f (errors st)) = Some m"
    by (simp only: errors_handleChange [OF assms])
  have "g \<noteq> f"
  proof
    assume "g = f"
    with d show False by (simp add: delete_field_def get_set_same)
  qed
  with d have "get_field g (errors st) = Some m"
    by (simp add: delete_field_def get_set_other)
  with assms have "spec_rule g (get_field g (formData st)) = Some m"
    unfolding errors_current_def by blast
  with \<open>g \<noteq> f\<close> show "spec_rule g (get_field g (formData (handleChange f v st))) = Some m"
    by (simp add: formData_handleChange get_set_other)
qed

lemma reachable_errors_current_aux: "reachable st \<Longrightarrow> errors_current st"
proof (induction rule: reachable.induct)
  case reachable_initial
  show ?case by (rule errors_current_initial)
next
  case (reachable_step st ev)
  then show ?case
    by (cases ev) (simp_all add: errors_current_handleChange errors_current_handleSubmit)
qed

lemma contains_email_shape_example: "contains_email_shape (js ''a@b.com'')"
  unfolding regex_test_email [symmetric] by code_simp

section \<open>The claims\<close>

text \<open>
  C1. For every form state, the validation pass returns true exactly when no field fails
  its rule; the error state it stores holds, for every field, the fixed message of the rule
  the field fails and nothing for a field that passes; and the stored error state does not
  depend on the error state before the call: it replaces it and merges nothing.
\<close>

theorem validateForm_errors_exact:
  "fst (validateForm st) = (\<forall>f. spec_rule f (get_field f (formData st)) = None) \<and>
   (\<forall>f. get_field f (errors (snd (validateForm st))) = spec_rule f (get_field f (formData st))) \<and>
   (\<forall>e. validateForm (st\<lparr>errors := e\<rparr>) = validateForm st)"
  by (simp add: fst_validateForm snd_validateForm newErrors_field) (simp add: validateForm_def)

theorem validateForm_errors_exact_witness:
  "\<not> fst (validateForm (initial\<lparr>formData :=
       \<lparr>name = js '''', email = js ''a@b.com'', subject = js '''', message = js ''hi''\<rparr>\<rparr>)) \<and>
   name (errors (snd (validateForm (initial\<lparr>formData :=
       \<lparr>name = js '''', email = js ''a@b.com'', subject = js '''', message = js ''hi''\<rparr>\<rparr>)))) =
     Some (js ''Name is required'')"
proof -
  let ?st = "initial\<lparr>formData :=
       \<lparr>name = js '''', email = js ''a@b.com'', subject = js '''', message = js ''hi''\<rparr>\<rparr>"
  have spec: "spec_rule Name (get_field Name (formData ?st)) = Some (js ''Name is required'')"
    by (simp add: blank_def js_def)
  from validateForm_errors_exact [of ?st]
  have 1: "fst (validateForm ?st) = (\<forall>f. spec_rule f (get_field f (formData ?st)) = None)"
    and 2: "get_field Name (errors (snd (validateForm ?st))) =
      spec_rule Name (get_field Name (formData ?st))"
    by blast+
  from 1 have "fst (validateForm ?st) \<Longrightarrow>
      spec_rule Name (get_field Name (formData ?st)) = None"
    by blast
  with spec have "\<not> fst (validateForm ?st)" by (metis option.distinct(1))
  moreover from 2 spec have "name (errors (snd (validateForm ?st))) = Some (js ''Name is required'')"
    by simp
  ultimately show ?thesis by blast
qed

text \<open>
  C2. When all four fields are non-empty after trimming and the email value has the email
  shape, the validation pass returns true and stores the empty error state. The shape is
  asked for somewhere in the value, which a value that has it as a whole satisfies
  (\<open>email_shape_contains\<close>).
\<close>

theorem validateForm_accepts_wellformed:
  assumes "trim (name (formData st)) \<noteq> []"
    and "trim (email (formData st)) \<noteq> []"
    and "trim (subject (formData st)) \<noteq> []"
    and "trim (message (formData st)) \<noteq> []"
    and "contains_email_shape (email (formData st))"
  shows "fst (validateForm st) \<and> errors (snd (validateForm st)) = no_errors"
proof -
  from assms have nb: "\<not> blank (name (formData st))" "\<not> blank (email (formData st))"
    "\<not> blank (subject (formData st))" "\<not> blank (message (formData st))"
    by (simp_all add: trim_empty_iff [symmetric] not_str_def)
  have all: "\<forall>f. spec_rule f (get_field f (formData st)) = None"
  proof
    fix f
    from nb assms(5) show "spec_rule f (get_field f (formData st)) = None"
      by (cases f) simp_all
  qed
  then have "\<forall>f. get_field f (newErrors (formData st)) = None"
    by (simp add: newErrors_field)
  then have "newErrors (formData st) = no_errors" by (rule all_None_no_errors)
  with all show ?thesis by (simp add: fst_validateForm snd_validateForm)
qed

theorem validateForm_accepts_wellformed_witness:
  "fst (validateForm (initial\<lparr>formData :=
       \<lparr>name = js ''A'', email = js ''a@b.com'', subject = js ''S'', message = js ''M''\<rparr>\<rparr>)) \<and>
   errors (snd (validateForm (initial\<lparr>formData :=
       \<lparr>name = js ''A'', email = js ''a@b.com'', subject = js ''S'', message = js ''M''\<rparr>\<rparr>))) =
     no_errors"
proof -
  let ?st = "initial\<lparr>formData :=
       \<lparr>name = js ''A'', email = js ''a@b.com'', subject = js ''S'', message = js ''M''\<rparr>\<rparr>"
  have 1: "trim (name (formData ?st)) \<noteq> []" by code_simp
  have 2: "trim (email (formData ?st)) \<noteq> []" by code_simp
  have 3: "trim (subject (formData ?st)) \<noteq> []" by code_simp
  have 4: "trim (message (formData ?st)) \<noteq> []" by code_simp
  have 5: "contains_email_shape (email (formData ?st))"
    using contains_email_shape_example by simp
  show ?thesis by (rule validateForm_accepts_wellformed [OF 1 2 3 4 5])
qed

text \<open>
  C3. The email rule: "Email is required" when the trimmed value is empty; otherwise
  "Email is not valid" exactly when the untrimmed value does not match the pattern, that
  is, when no part of it has the email shape; otherwise no error. The result is a single
  optional message, so the two failures exclude each other.
\<close>

theorem validateForm_email_rule:
  "email (errors (snd (validateForm st))) =
     (if trim (email (formData st)) = [] then Some (js ''Email is required'')
      else if \<not> contains_email_shape (email (formData st)) then Some (js ''Email is not valid'')
      else None)"
proof -
  have "email (errors (snd (validateForm st))) = get_field Email (newErrors (formData st))"
    by (simp add: snd_validateForm)
  also have "\<dots> = spec_rule Email (email (formData st))"
    by (simp add: newErrors_field)
  finally show ?thesis
    by (simp add: trim_empty_iff [symmetric] not_str_def)
qed

theorem validateForm_email_rule_witness:
  "email (errors (snd (validateForm (initial\<lparr>formData :=
       \<lparr>name = js ''A'', email = js ''bad'', subject = js ''S'', message = js ''M''\<rparr>\<rparr>)))) =
     Some (js ''Email is not valid'')"
proof -
  let ?st = "initial\<lparr>formData :=
       \<lparr>name = js ''A'', email = js ''bad'', subject = js ''S'', message = js ''M''\<rparr>\<rparr>"
  have 1: "trim (email (formData ?st)) \<noteq> []" by code_simp
  have "\<not> regex_test email_pattern (js ''bad'')" by code_simp
  then have 2: "\<not> contains_email_shape (email (formData ?st))"
    by (simp add: regex_test_email)
  from validateForm_email_rule [of ?st] 1 2 show ?thesis by simp
qed

text \<open>
  C4. A submission whose validation pass succeeds adds exactly one toast, the fixed
  success message, resets the four fields to the empty string and leaves the error state
  empty. (It also logs the submitted data to the console.)
\<close>

theorem handleSubmit_success:
  assumes "fst (validateForm st)"
  shows "handleSubmit st =
     st\<lparr>formData := empty_form, errors := no_errors,
        toasts := toasts st @ [success_message],
        console := console st @ [(js ''Form submitted:'', formData st)]\<rparr>"
  using assms by (rule handleSubmit_ok)

theorem handleSubmit_success_witness:
  "toasts (handleSubmit (initial\<lparr>formData :=
       \<lparr>name = js ''A'', email = js ''a@b.com'', subject = js ''S'', message = js ''M''\<rparr>\<rparr>)) =
     [success_message] \<and>
   formData (handleSubmit (initial\<lparr>formData :=
       \<lparr>name = js ''A'', email = js ''a@b.com'', subject = js ''S'', message = js ''M''\<rparr>\<rparr>)) =
     empty_form \<and>
   errors (handleSubmit (initial\<lparr>formData :=
       \<lparr>name = js ''A'', email = js ''a@b.com'', subject = js ''S'', message = js ''M''\<rparr>\<rparr>)) =
     no_errors"
proof -
  let ?st = "initial\<lparr>formData :=
       \<lparr>name = js ''A'', email = js ''a@b.com'', subject = js ''S'', message = js ''M''\<rparr>\<rparr>"
  have ok: "fst (validateForm ?st)" by code_simp
  have "toasts ?st = []" by (simp add: initial_def)
  with handleSubmit_success [OF ok] show ?thesis by simp
qed

text \<open>
  C5. A submission whose validation pass fails stores the map of that pass as the error
  state and changes nothing else: the form data is untouched and no toast is shown. Over
  any sequence of events, the toasts added are one success message for each successful
  submission and none for anything else.
\<close>

theorem handleSubmit_failure:
  "(\<not> fst (validateForm st) \<longrightarrow>
      handleSubmit st = st\<lparr>errors := errors (snd (validateForm st))\<rparr> \<and>
      formData (handleSubmit st) = formData st \<and>
      toasts (handleSubmit st) = toasts st) \<and>
   toasts (run st evs) = toasts st @ replicate (successful_submits st evs) success_message"
proof -
  have "handleSubmit st = st\<lparr>errors := errors (snd (validateForm st))\<rparr> \<and>
      formData (handleSubmit st) = formData st \<and> toasts (handleSubmit st) = toasts st"
    if "\<not> fst (validateForm st)"
    using that by (simp add: handleSubmit_not_ok snd_validateForm)
  then show ?thesis by (simp add: toasts_run)
qed

theorem handleSubmit_failure_witness:
  "errors (handleSubmit initial) =
     \<lparr>name = Some (js ''Name is required''), email = Some (js ''Email is required''),
      subject = Some (js ''Subject is required''), message = Some (js ''Message is required'')\<rparr> \<and>
   formData (handleSubmit initial) = empty_form \<and>
   toasts (handleSubmit initial) = [] \<and>
   toasts (run initial
     [Submit, Change Name (js ''A''), Change Email (js ''a@b.com''), Submit,
      Change Subject (js ''tour''), Change Message (js ''M''), Submit, Submit]) =
     [success_message]"
proof -
  have bad: "\<not> fst (validateForm initial)" by code_simp
  have e: "errors (snd (validateForm initial)) =
     \<lparr>name = Some (js ''Name is required''), email = Some (js ''Email is required''),
      subject = Some (js ''Subject is required''), message = Some (js ''Message is required'')\<rparr>"
    by code_simp
  have n: "successful_submits initial
     [Submit, Change Name (js ''A''), Change Email (js ''a@b.com''), Submit,
      Change Subject (js ''tour''), Change Message (js ''M''), Submit, Submit] = 1"
    by code_simp
  have i: "formData initial = empty_form" "toasts initial = []"
    by (simp_all add: initial_def)
  let ?evs = "[Submit, Change Name (js ''A''), Change Email (js ''a@b.com''), Submit,
      Change Subject (js ''tour''), Change Message (js ''M''), Submit, Submit]"
  from handleSubmit_failure [of initial ?evs] bad
  have a: "handleSubmit initial = initial\<lparr>errors := errors (snd (validateForm initial))\<rparr>"
    and b: "formData (handleSubmit initial) = formData initial"
    and c: "toasts (handleSubmit initial) = toasts initial"
    and d: "toasts (run initial ?evs) =
      toasts initial @ replicate (successful_submits initial ?evs) success_message"
    by blast+
  have "errors (handleSubmit initial) = errors (snd (validateForm initial))"
    by (subst a) simp
  from this e have 1: "errors (handleSubmit initial) =
     \<lparr>name = Some (js ''Name is required''), email = Some (js ''Email is required''),
      subject = Some (js ''Subject is required''), message = Some (js ''Message is required'')\<rparr>"
    by (rule trans)
  from b i(1) have 2: "formData (handleSubmit initial) = empty_form" by (rule trans)
  from c i(2) have 3: "toasts (handleSubmit initial) = []" by (rule trans)
  have 4: "toasts (run initial ?evs) = [success_message]"
    by (simp only: d n i) simp
  from 1 2 3 4 show ?thesis by blast
qed

text \<open>
  C6. A change of field \<open>f\<close> to value \<open>v\<close> (any value, the empty string included)
  sets that field of the form data to \<open>v\<close> and leaves the other fields, the errors of the
  other fields, the toasts and the console as they were; in every state of the running
  form the error of \<open>f\<close> is absent afterwards. The handler is a total function: it has no
  failing branch. (The source removes the entry when \<^verbatim>\<open>errors[name]\<close> is truthy; the
  messages a running form stores are never empty.)
\<close>

theorem handleChange_effect:
  "get_field f (formData (handleChange f v st)) = v \<and>
   (\<forall>g. g \<noteq> f \<longrightarrow>
      get_field g (formData (handleChange f v st)) = get_field g (formData st) \<and>
      get_field g (errors (handleChange f v st)) = get_field g (errors st)) \<and>
   (reachable st \<longrightarrow> get_field f (errors (handleChange f v st)) = None) \<and>
   toasts (handleChange f v st) = toasts st \<and>
   console (handleChange f v st) = console st"
proof -
  have 1: "get_field f (formData (handleChange f v st)) = v"
    by (simp add: formData_handleChange get_set_same)
  have 2: "get_field g (formData (handleChange f v st)) = get_field g (formData st)"
    if "g \<noteq> f" for g
    using that by (simp add: formData_handleChange get_set_other)
  have 3: "get_field g (errors (handleChange f v st)) = get_field g (errors st)"
    if "g \<noteq> f" for g
    using that by (simp add: handleChange_def Let_def delete_field_def get_set_other)
  have 4: "get_field f (errors (handleChange f v st)) = None" if "reachable st"
  proof -
    from that have "errors_current st" by (rule reachable_errors_current_aux)
    then show ?thesis by (simp add: errors_handleChange delete_field_def get_set_same)
  qed
  have 5: "toasts (handleChange f v st) = toasts st" "console (handleChange f v st) = console st"
    by (simp_all add: handleChange_def Let_def)
  from 1 2 3 4 5 show ?thesis by blast
qed

theorem handleChange_effect_witness:
  "name (errors (step initial Submit)) = Some (js ''Name is required'') \<and>
   name (errors (handleChange Name (js '''') (step initial Submit))) = None \<and>
   name (formData (handleChange Name (js '''') (step initial Submit))) = js '''' \<and>
   email (errors (handleChange Name (js '''') (step initial Submit))) =
     Some (js ''Email is required'')"
proof -
  have r: "reachable (step initial Submit)"
    by (rule reachable_step) (rule reachable_initial)
  have b: "name (errors (step initial Submit)) = Some (js ''Name is required'')"
    "email (errors (step initial Submit)) = Some (js ''Email is required'')"
    by code_simp+
  have ne: "Email \<noteq> Name" by simp
  from handleChange_effect [of Name "js ''''" "step initial Submit"] r ne
  have "get_field Name (formData (handleChange Name (js '''') (step initial Submit))) = js ''''"
    and "get_field Email (errors (handleChange Name (js '''') (step initial Submit))) =
      get_field Email (errors (step initial Submit))"
    and "get_field Name (errors (handleChange Name (js '''') (step initial Submit))) = None"
    by blast+
  with b show ?thesis by simp
qed

text \<open>
  C7. In every state reachable from the initial one by changes and submissions, a field
  that has an error entry is one of the four fields and fails its validation rule, on the
  current form data, with exactly the stored message.
\<close>

theorem reachable_errors_current:
  assumes "reachable st" and "get_field f (errors st) = Some m"
  shows "f \<in> set [Name, Email, Subject, Message] \<and>
    spec_rule f (get_field f (formData st)) = Some m"
proof -
  from assms(1) have "errors_current st" by (rule reachable_errors_current_aux)
  with assms(2) have "spec_rule f (get_field f (formData st)) = Some m"
    unfolding errors_current_def by blast
  moreover have "f \<in> set [Name, Email, Subject, Message]" by (cases f) simp_all
  ultimately show ?thesis by blast
qed

theorem reachable_errors_current_witness:
  "spec_rule Email (get_field Email (formData
      (run initial [Change Email (js ''bad''), Submit, Change Name (js ''A'')]))) =
     Some (js ''Email is not valid'')"
proof -
  let ?st = "run initial [Change Email (js ''bad''), Submit, Change Name (js ''A'')]"
  have "reachable (step (step (step initial (Change Email (js ''bad''))) Submit)
      (Change Name (js ''A'')))"
    by (intro reachable_step reachable_initial)
  then have r: "reachable ?st" by simp
  have e: "get_field Email (errors ?st) = Some (js ''Email is not valid'')" by code_simp
  from reachable_errors_current [OF r e] show ?thesis by blast
qed

text \<open>
  C8, as amended. The validation pass has one write, the error state, which the source
  stores with \<^verbatim>\<open>setErrors\<close>: the state after the pass is the state before it with
  the error state replaced, so the form data, the toasts and the console are untouched.
  The flag and the stored error state are a function of the form data alone: two states
  with the same form data give the same flag and the same error state, and a second pass
  on the unchanged form returns the same flag and changes nothing further.
\<close>

theorem validateForm_writes_errors_only:
  "snd (validateForm st) = st\<lparr>errors := errors (snd (validateForm st))\<rparr> \<and>
   (\<forall>st'. formData st' = formData st \<longrightarrow>
      fst (validateForm st') = fst (validateForm st) \<and>
      errors (snd (validateForm st')) = errors (snd (validateForm st))) \<and>
   validateForm (snd (validateForm st)) = validateForm st"
proof -
  have frame: "snd (validateForm st) = st\<lparr>errors := errors (snd (validateForm st))\<rparr>"
    by (simp add: snd_validateForm)
  have same: "fst (validateForm st') = fst (validateForm st) \<and>
      errors (snd (validateForm st')) = errors (snd (validateForm st))"
    if "formData st' = formData st" for st'
    using that by (simp add: fst_validateForm snd_validateForm)
  have again: "validateForm (snd (validateForm st)) = validateForm st"
  proof (rule prod_eqI)
    show "fst (validateForm (snd (validateForm st))) = fst (validateForm st)"
      by (simp add: fst_validateForm snd_validateForm)
    show "snd (validateForm (snd (validateForm st))) = snd (validateForm st)"
      by (simp add: snd_validateForm)
  qed
  from frame same again show ?thesis by blast
qed

theorem validateForm_writes_errors_only_witness:
  "fst (validateForm (handleSubmit initial)) = fst (validateForm initial) \<and>
   errors (snd (validateForm (handleSubmit initial))) = errors (snd (validateForm initial)) \<and>
   validateForm (snd (validateForm initial)) = validateForm initial"
proof -
  have "formData (handleSubmit initial) = formData initial" by code_simp
  with validateForm_writes_errors_only [of initial] show ?thesis by blast
qed

text \<open>
  The pass is not free of effects: on the initial state, whose error state is empty, it
  stores the four "required" messages, so the state after the pass differs from the state
  before it.
\<close>

theorem validateForm_no_side_effect_counterexample:
  "snd (validateForm initial) \<noteq> initial \<and>
   errors initial = no_errors \<and>
   errors (snd (validateForm initial)) =
     \<lparr>name = Some (js ''Name is required''), email = Some (js ''Email is required''),
      subject = Some (js ''Subject is required''), message = Some (js ''Message is required'')\<rparr>"
proof -
  have a: "errors initial = no_errors" by (simp add: initial_def)
  have b: "errors (snd (validateForm initial)) =
     \<lparr>name = Some (js ''Name is required''), email = Some (js ''Email is required''),
      subject = Some (js ''Subject is required''), message = Some (js ''Message is required'')\<rparr>"
    by code_simp
  have "errors (snd (validateForm initial)) \<noteq> errors initial"
    by (simp only: a b) (simp add: no_errors_def)
  then have "snd (validateForm initial) \<noteq> initial" by auto
  with a b show ?thesis by blast
qed

text \<open>
  C9. The email check searches the value for the pattern: whenever some part of the value
  has the email shape, no email error is reported. The value "a@b.c extra words" contains
  the shape and does not have it as a whole.
\<close>

theorem email_check_unanchored:
  "(contains_email_shape (email (formData st)) \<longrightarrow>
      email (errors (snd (validateForm st))) = None) \<and>
   contains_email_shape (js ''a@b.c extra words'') \<and>
   \<not> email_shape (js ''a@b.c extra words'')"
proof -
  have 1: "email (errors (snd (validateForm st))) = None"
    if c: "contains_email_shape (email (formData st))"
  proof -
    from c have nb: "\<not> blank (email (formData st))" by (rule contains_email_shape_not_blank)
    have "email (errors (snd (validateForm st))) = spec_rule Email (email (formData st))"
      using newErrors_field [of Email "formData st"] by (simp add: snd_validateForm)
    with c nb show ?thesis by simp
  qed
  have "regex_test email_pattern (js ''a@b.c extra words'')" by code_simp
  then have 2: "contains_email_shape (js ''a@b.c extra words'')"
    by (simp only: regex_test_email)
  have 3: "\<not> email_shape (js ''a@b.c extra words'')"
  proof
    assume "email_shape (js ''a@b.c extra words'')"
    then have "\<forall>c\<in>set (js ''a@b.c extra words''). \<not> is_ws c" by (rule email_shape_no_ws)
    moreover have "0x20 \<in> set (js ''a@b.c extra words'')" by (simp add: js_def)
    moreover have "is_ws 0x20" by (simp add: is_ws_def WhiteSpace_def)
    ultimately show False by blast
  qed
  from 1 2 3 show ?thesis by blast
qed

theorem email_check_unanchored_witness:
  "email (errors (snd (validateForm (initial\<lparr>formData :=
      \<lparr>name = js ''A'', email = js ''a@b.c extra words'', subject = js ''S'',
       message = js ''M''\<rparr>\<rparr>)))) = None"
proof -
  let ?st = "initial\<lparr>formData :=
      \<lparr>name = js ''A'', email = js ''a@b.c extra words'', subject = js ''S'',
       message = js ''M''\<rparr>\<rparr>"
  from email_check_unanchored [of ?st]
  have "contains_email_shape (email (formData ?st)) \<longrightarrow>
      email (errors (snd (validateForm ?st))) = None"
    and "contains_email_shape (js ''a@b.c extra words'')"
    by blast+
  then show ?thesis by simp
qed

text \<open>
  C10. The subject rule accepts every subject that is non-empty after trimming, whether or
  not it is one of the options of the subject control.
\<close>

theorem subject_not_restricted:
  assumes "trim (subject (formData st)) \<noteq> []"
  shows "subject (errors (snd (validateForm st))) = None"
proof -
  from assms have nb: "\<not> blank (subject (formData st))"
    by (simp add: trim_empty_iff [symmetric] not_str_def)
  have "subject (errors (snd (validateForm st))) = spec_rule Subject (subject (formData st))"
    using newErrors_field [of Subject "formData st"] by (simp add: snd_validateForm)
  with nb show ?thesis by simp
qed

theorem subject_not_restricted_witness:
  "js ''banana'' \<notin> set subject_options \<and>
   subject (errors (snd (validateForm (initial\<lparr>formData :=
      \<lparr>name = js '''', email = js '''', subject = js ''banana'', message = js ''''\<rparr>\<rparr>)))) = None"
proof -
  let ?st = "initial\<lparr>formData :=
      \<lparr>name = js '''', email = js '''', subject = js ''banana'', message = js ''''\<rparr>\<rparr>"
  have 1: "trim (subject (formData ?st)) \<noteq> []" by code_simp
  have 2: "js ''banana'' \<notin> set subject_options" by code_simp
  from subject_not_restricted [OF 1] 2 show ?thesis by blast
qed

end
